theory Spec2Isabelle
  imports Complex_Main
begin

section \<open>The webcam component (WebcamView.tsx)\<close>

text \<open>
  The component keeps three pieces of React state (\<open>isCameraActive\<close>, \<open>hasPermission\<close>,
  \<open>isLoading\<close>) and two element references (\<open>videoRef\<close>, \<open>canvasRef\<close>). Exceptions are
  values: an operation that may throw returns its exception, and \<open>Inl e\<close> as the result
  of a function means that \<open>e\<close> propagated to its caller. Animation-frame timestamps are
  milliseconds, taken here as exact rationals.
\<close>

type_synonym exn = string

record ImageData =
  imgWidth :: nat
  imgHeight :: nat
  pixels :: "nat list"

type_synonym MediaStream = nat

text \<open>What \<open>navigator.mediaDevices.getUserMedia\<close> settles to.\<close>

datatype MediaResult = Granted MediaStream | Denied exn

record Video =
  srcObject :: "MediaStream option"
  onloadedmetadata :: bool

text \<open>
  A 2D context: \<open>drawImage\<close> either draws (\<open>None\<close>) or throws; \<open>getImageData\<close> either
  throws or returns the pixels.
\<close>

record Context2D =
  drawImage :: "exn option"
  getImageData :: "exn + ImageData"

text \<open>
  \<open>getContext\<close> either throws, or returns the context, or returns null.
\<close>

record Canvas =
  getContext :: "exn + Context2D option"

record WebcamState =
  isCameraActive :: bool
  hasPermission :: "bool option"
  isLoading :: bool
  stream :: "MediaStream option"
  videoCurrent :: "Video option"
  canvasCurrent :: "Canvas option"
  consoleErrors :: "exn list"

text \<open>
  \<open>try { body } catch (error) { handler }\<close>: the body returns the state it reached and
  the exception it threw, if any; whatever the handler returns is the result.
\<close>

definition tryCatch ::
  "('s \<Rightarrow> 's \<times> exn option) \<Rightarrow> (exn \<Rightarrow> 's \<Rightarrow> exn + 's) \<Rightarrow> 's \<Rightarrow> exn + 's" where
  "tryCatch body handler s =
     (case body s of (s', None) \<Rightarrow> Inr s' | (s', Some e) \<Rightarrow> handler e s')"

subsection \<open>setupCamera\<close>

definition setupTry :: "MediaResult \<Rightarrow> WebcamState \<Rightarrow> WebcamState \<times> exn option" where
  "setupTry gum st =
     (let st1 = st\<lparr>isLoading := True\<rparr>;
          st2 = st1\<lparr>hasPermission := None\<rparr>
      in case gum of
           Denied e \<Rightarrow> (st2, Some e)
         | Granted s \<Rightarrow>
             (let st3 = st2\<lparr>stream := Some s\<rparr>
              in case videoCurrent st3 of
                   None \<Rightarrow> (st3, None)
                 | Some v \<Rightarrow>
                     (st3\<lparr>videoCurrent := Some (v\<lparr>srcObject := Some s, onloadedmetadata := True\<rparr>)\<rparr>,
                      None)))"

definition setupCatch :: "exn \<Rightarrow> WebcamState \<Rightarrow> exn + WebcamState" where
  "setupCatch e st =
     Inr (st\<lparr>consoleErrors := e # consoleErrors st, hasPermission := Some False,
             isLoading := False\<rparr>)"

definition setupCamera :: "MediaResult \<Rightarrow> WebcamState \<Rightarrow> exn + WebcamState" where
  "setupCamera gum st =
     (if \<not> isCameraActive st then Inr st
      else tryCatch (setupTry gum) setupCatch st)"

text \<open>The \<open>onloadedmetadata\<close> handler installed by a successful setup.\<close>

definition loadedMetadata :: "WebcamState \<Rightarrow> WebcamState" where
  "loadedMetadata st = st\<lparr>isLoading := False, hasPermission := Some True\<rparr>"

subsection \<open>The frame-capture loop\<close>

text \<open>
  One animation-frame callback: its timestamp and what the two references hold when it
  runs.
\<close>

record Tick =
  timestamp :: rat
  videoRef :: "Video option"
  canvasRef :: "Canvas option"

text \<open>
  The state of one run of the capture effect: its local \<open>lastFrameTime\<close>, the calls of
  \<open>onFrame\<close> made so far (newest first, each with the timestamp of its callback), what
  was logged with \<open>console.error\<close>, and whether an animation frame is requested.
\<close>

record CaptureLoop =
  lastFrameTime :: rat
  onFrameCalls :: "(rat \<times> ImageData) list"
  errorLog :: "exn list"
  pending :: bool

definition frameDuration :: rat where
  "frameDuration = 1000 / 30"

definition requestAnimationFrame :: "CaptureLoop \<Rightarrow> CaptureLoop" where
  "requestAnimationFrame cs = cs\<lparr>pending := True\<rparr>"

text \<open>Reading a property of \<open>ref.current\<close>: a TypeError when it is null.\<close>

definition deref :: "'a option \<Rightarrow> exn + 'a" where
  "deref r = (case r of None \<Rightarrow> Inl ''TypeError'' | Some v \<Rightarrow> Inr v)"

text \<open>The body of the \<open>try\<close> in \<open>captureFrame\<close>.\<close>

definition captureTry ::
  "(ImageData \<Rightarrow> exn option) \<Rightarrow> rat \<Rightarrow> Context2D \<Rightarrow> CaptureLoop \<Rightarrow> CaptureLoop \<times> exn option" where
  "captureTry onFrame ts ctx cs =
     (case drawImage ctx of
        Some e \<Rightarrow> (cs, Some e)
      | None \<Rightarrow>
          (case getImageData ctx of
             Inl e \<Rightarrow> (cs, Some e)
           | Inr imageData \<Rightarrow>
               (cs\<lparr>onFrameCalls := (ts, imageData) # onFrameCalls cs\<rparr>, onFrame imageData)))"

definition captureCatch :: "exn \<Rightarrow> CaptureLoop \<Rightarrow> exn + CaptureLoop" where
  "captureCatch e cs = Inr (cs\<lparr>errorLog := e # errorLog cs\<rparr>)"

text \<open>
  One call of \<open>captureFrame\<close>. \<open>Inr cs\<close>: it returned, in state \<open>cs\<close>. \<open>Inl (e, cs)\<close>:
  the exception \<open>e\<close> left it, in state \<open>cs\<close>. The call of \<open>getContext\<close> stands before
  the \<open>try\<close>, so what it throws is not caught.
\<close>

definition captureFrame ::
  "(ImageData \<Rightarrow> exn option) \<Rightarrow> Tick \<Rightarrow> CaptureLoop \<Rightarrow> (exn \<times> CaptureLoop) + CaptureLoop" where
  "captureFrame onFrame t cs0 =
     (let cs = cs0\<lparr>pending := False\<rparr>
      in if videoRef t = None \<or> canvasRef t = None then Inr cs
         else if timestamp t - lastFrameTime cs \<ge> frameDuration then
           (let cs1 = cs\<lparr>lastFrameTime := timestamp t\<rparr>
            in case deref (canvasRef t) of
                 Inl e \<Rightarrow> Inl (e, cs1)
               | Inr canvas \<Rightarrow>
                   (case getContext canvas of
                      Inl e \<Rightarrow> Inl (e, cs1)
                    | Inr None \<Rightarrow> Inr cs1
                    | Inr (Some ctx) \<Rightarrow>
                        (case tryCatch (captureTry onFrame (timestamp t) ctx) captureCatch cs1 of
                           Inl e \<Rightarrow> Inl (e, cs1)
                         | Inr cs2 \<Rightarrow> Inr (requestAnimationFrame cs2))))
         else Inr (requestAnimationFrame cs))"

text \<open>
  The browser runs the callback once per animation frame for as long as one is
  requested; an exception leaving the callback ends the loop.
\<close>

fun captureLoop ::
  "(ImageData \<Rightarrow> exn option) \<Rightarrow> CaptureLoop \<Rightarrow> Tick list \<Rightarrow> (exn \<times> CaptureLoop) + CaptureLoop" where
  "captureLoop onFrame cs [] = Inr cs"
| "captureLoop onFrame cs (t # ts) =
     (if \<not> pending cs then Inr cs
      else case captureFrame onFrame t cs of
             Inl r \<Rightarrow> Inl r
           | Inr cs' \<Rightarrow> captureLoop onFrame cs' ts)"

text \<open>The state a run ended in, whichever way it ended.\<close>

definition finalState :: "(exn \<times> CaptureLoop) + CaptureLoop \<Rightarrow> CaptureLoop" where
  "finalState r = (case r of Inl (e, cs) \<Rightarrow> cs | Inr cs \<Rightarrow> cs)"

definition startCapture :: CaptureLoop where
  "startCapture = requestAnimationFrame
     \<lparr>lastFrameTime = 0, onFrameCalls = [], errorLog = [], pending = False\<rparr>"

text \<open>
  The effect that owns the loop: it starts one only when the camera is active,
  permission is granted, a frame handler is given and both references are set.
\<close>

definition frameEffect ::
  "WebcamState \<Rightarrow> (ImageData \<Rightarrow> exn option) option
     \<Rightarrow> ((ImageData \<Rightarrow> exn option) \<times> CaptureLoop) option" where
  "frameEffect st onFrameProp =
     (if \<not> isCameraActive st \<or> hasPermission st \<noteq> Some True \<or> onFrameProp = None
         \<or> videoCurrent st = None \<or> canvasCurrent st = None
      then None
      else (case onFrameProp of None \<Rightarrow> None | Some onFrame \<Rightarrow> Some (onFrame, startCapture)))"

definition framesDelivered ::
  "WebcamState \<Rightarrow> (ImageData \<Rightarrow> exn option) option \<Rightarrow> Tick list
     \<Rightarrow> exn + (rat \<times> ImageData) list" where
  "framesDelivered st onFrameProp ticks =
     (case frameEffect st onFrameProp of
        None \<Rightarrow> Inr []
      | Some (onFrame, cs) \<Rightarrow>
          (case captureLoop onFrame cs ticks of
             Inl r \<Rightarrow> Inl (fst r)
           | Inr cs' \<Rightarrow> Inr (onFrameCalls cs')))"

text \<open>
  The effect runs again whenever one of its dependencies changes (\<open>isCameraActive\<close>,
  \<open>hasPermission\<close>, \<open>onFrame\<close>, \<open>width\<close>, \<open>height\<close>, \<open>drawCanvas\<close>, \<open>canvasRef\<close>). Its
  cleanup cancels the requested animation frame, and the new run starts a new loop with
  its own \<open>lastFrameTime = 0\<close>. A run is given by the handler it closes over and the
  callbacks the browser delivers to it before the cleanup; \<open>captureRuns\<close> collects the
  calls of \<open>onFrame\<close> over successive runs, newest first.
\<close>

fun captureRuns ::
  "(rat \<times> ImageData) list \<Rightarrow> ((ImageData \<Rightarrow> exn option) \<times> Tick list) list
     \<Rightarrow> (rat \<times> ImageData) list" where
  "captureRuns calls [] = calls"
| "captureRuns calls (run # runs) =
     captureRuns
       (onFrameCalls (finalState (captureLoop (fst run) startCapture (snd run))) @ calls) runs"

text \<open>
  Timestamps of consecutive calls (newest first) are at least one frame duration apart.
\<close>

fun spaced :: "rat list \<Rightarrow> bool" where
  "spaced (a # b # r) = (a - b \<ge> frameDuration \<and> spaced (b # r))"
| "spaced _ = True"

subsection \<open>Sample inputs\<close>

definition sampleImage :: ImageData where
  "sampleImage = \<lparr>imgWidth = 640, imgHeight = 480, pixels = []\<rparr>"

definition goodCanvas :: Canvas where
  "goodCanvas =
     \<lparr>getContext = Inr (Some \<lparr>drawImage = None, getImageData = Inr sampleImage\<rparr>)\<rparr>"

definition brokenCanvas :: Canvas where
  "brokenCanvas =
     \<lparr>getContext = Inr (Some \<lparr>drawImage = Some ''InvalidStateError'',
                                 getImageData = Inr sampleImage\<rparr>)\<rparr>"

text \<open>A canvas that already has a context of another kind: \<open>getContext("2d")\<close> is null.\<close>

definition contextlessCanvas :: Canvas where
  "contextlessCanvas = \<lparr>getContext = Inr None\<rparr>"

text \<open>A canvas whose \<open>getContext\<close> throws.\<close>

definition throwingCanvas :: Canvas where
  "throwingCanvas = \<lparr>getContext = Inl ''InvalidStateError''\<rparr>"

definition sampleVideo :: Video where
  "sampleVideo = \<lparr>srcObject = Some 1, onloadedmetadata = True\<rparr>"

definition tickAt :: "rat \<Rightarrow> Canvas \<Rightarrow> Tick" where
  "tickAt ts c = \<lparr>timestamp = ts, videoRef = Some sampleVideo, canvasRef = Some c\<rparr>"

definition acceptFrame :: "ImageData \<Rightarrow> exn option" where
  "acceptFrame img = None"

definition cameraOn :: WebcamState where
  "cameraOn = \<lparr>isCameraActive = True, hasPermission = None, isLoading = False,
     stream = None, videoCurrent = Some \<lparr>srcObject = None, onloadedmetadata = False\<rparr>,
     canvasCurrent = Some goodCanvas, consoleErrors = []\<rparr>"

text \<open>
  The invariant of the loop: the recorded calls are spaced, and the newest of them is
  not later than \<open>lastFrameTime\<close>.
\<close>

definition paced :: "CaptureLoop \<Rightarrow> bool" where
  "paced cs = (spaced (map fst (onFrameCalls cs))
     \<and> (\<forall>c \<in> set (take 1 (onFrameCalls cs)). fst c \<le> lastFrameTime cs))"

definition sampleTicks :: "Tick list" where
  "sampleTicks = map (\<lambda>ts. tickAt ts goodCanvas) [10, 40, 50, 80, 120]"

text \<open>
  Two runs of the effect: a callback at 40 ms, then a change of a dependency, then the
  first callback of the new run at 56 ms.
\<close>

definition twoRuns :: "((ImageData \<Rightarrow> exn option) \<times> Tick list) list" where
  "twoRuns = [(acceptFrame, [tickAt 40 goodCanvas]), (acceptFrame, [tickAt 56 goodCanvas])]"

text \<open>A frame without a 2D context, followed by two good frames.\<close>

definition nullThenGood :: "Tick list" where
  "nullThenGood = [tickAt 40 contextlessCanvas, tickAt 80 goodCanvas, tickAt 120 goodCanvas]"


section \<open>The recognition and counting engine\<close>

text \<open>
  The engine that the frames are handed to is described by the specification only; its
  code is not among the sources. Its control logic (repetition state machine, vote over
  the sliding window, feedback cooldown, session and reset) is modelled below from the
  specification. Its numeric parts, for which the specification gives no formulas or
  constants (what the keypoint filter returns, how angles are computed, how candidates
  are scored, which form rules exist), are parameters: every statement below holds for
  all of them. Angles are rationals, timestamps whole milliseconds.
\<close>

text \<open>
  Modelled from the spec: the data model of section 3 (exercise types, phases, keypoints,
  poses, joint angles, counter state, feedback events, session state, snapshot). Joint
  and angle names are those of the angle sets in section 4.2.
\<close>

datatype ExerciseType = Squat | Pushup | BicepCurl | ShoulderPress | Unknown

datatype RepPhase = Top | Bottom | InTransition

datatype JointName = Shoulder | Elbow | Wrist | Hip | Knee | Ankle

datatype AngleJoint = HipKneeAnkle | ShoulderElbowWrist | HipShoulderKnee | ElbowShoulderHip

datatype Severity = Info | Warning

type_synonym FeedbackCode = string

record Keypoint =
  kpName :: JointName
  xPos :: rat
  yPos :: rat
  kpConfidence :: rat

record Pose =
  keypoints :: "Keypoint list"
  timestampMs :: int

record JointAngle =
  joint :: AngleJoint
  degrees :: rat
  confidence :: rat

record RepCounterState =
  exercise :: ExerciseType
  phase :: RepPhase
  count :: nat
  lastPhaseChangeMs :: int

record FeedbackEvent =
  code :: FeedbackCode
  severity :: Severity
  message :: string
  eventTimestampMs :: int

type_synonym FilterState = "JointName \<Rightarrow> (rat \<times> rat) option"

record SessionState =
  currentExercise :: ExerciseType
  counters :: "ExerciseType \<Rightarrow> RepCounterState"
  feedbackLog :: "FeedbackEvent list"
  classifierHistory :: "ExerciseType list"
  filterState :: FilterState

record Snapshot =
  snapExercise :: ExerciseType
  counts :: "ExerciseType \<Rightarrow> nat"
  newFeedback :: "FeedbackEvent list"

record PhaseThresholds =
  enterBottomBelow :: rat
  enterTopAbove :: rat

record EngineConfig =
  confidenceThreshold :: rat
  smoothingAlpha :: rat
  windowSize :: nat
  majorityPercent :: nat
  phaseThresholds :: "ExerciseType \<Rightarrow> PhaseThresholds"
  dwellMs :: int
  cooldownMs :: int
  feedbackLogCapacity :: nat

text \<open>
  Modelled from the spec: the configuration surface of section 6 with the defaults the
  specification states. It gives no threshold table and no bound for the feedback log,
  so these two are arguments.
\<close>

definition defaultConfig :: "(ExerciseType \<Rightarrow> PhaseThresholds) \<Rightarrow> nat \<Rightarrow> EngineConfig" where
  "defaultConfig table cap =
     \<lparr>confidenceThreshold = 3 / 10, smoothingAlpha = 1 / 2, windowSize = 10,
      majorityPercent = 60, phaseThresholds = table, dwellMs = 150, cooldownMs = 2000,
      feedbackLogCapacity = cap\<rparr>"

text \<open>
  The parts of the engine that the specification leaves open: the keypoint filter, the
  angle calculator, the scoring of candidates against the threshold, the angle that
  drives each exercise's machine, and the form rules with their messages.
\<close>

record EngineParts =
  keypointFilter :: "EngineConfig \<Rightarrow> FilterState \<Rightarrow> Pose \<Rightarrow> FilterState \<times> Pose"
  jointAngles :: "Pose \<Rightarrow> AngleJoint \<Rightarrow> JointAngle"
  topCandidate :: "EngineConfig \<Rightarrow> (AngleJoint \<Rightarrow> JointAngle) \<Rightarrow> ExerciseType"
  trackedJoint :: "ExerciseType \<Rightarrow> AngleJoint"
  violatedRules :: "ExerciseType \<Rightarrow> (AngleJoint \<Rightarrow> JointAngle) \<Rightarrow> (FeedbackCode \<times> string) list"

subsection \<open>Repetition state machine\<close>

text \<open>
  Modelled from the spec: the repetition state machine of section 4.4, which is not in
  the sources. A low-confidence angle freezes the machine. From \<open>Top\<close> an angle below
  \<open>enterBottomBelow\<close> moves to \<open>Bottom\<close>; from \<open>Bottom\<close> an angle above \<open>enterTopAbove\<close>
  moves to \<open>Top\<close> and adds one to \<open>count\<close>. A transition is honoured only after the
  minimum dwell time. The specification does not say from when that time runs; here it
  runs from \<open>lastPhaseChangeMs\<close>, the only time the state records, and nothing proved
  below depends on that choice except through the sample runs. The specification names
  \<open>InTransition\<close> but gives no rule that enters or leaves it.
\<close>

definition repStep :: "EngineConfig \<Rightarrow> RepCounterState \<Rightarrow> JointAngle \<Rightarrow> int \<Rightarrow> RepCounterState" where
  "repStep cfg st a ts =
     (let th = phaseThresholds cfg (exercise st)
      in if confidence a < confidenceThreshold cfg then st
         else if ts - lastPhaseChangeMs st < dwellMs cfg then st
         else (case phase st of
                 Top \<Rightarrow>
                   if degrees a < enterBottomBelow th
                   then st\<lparr>phase := Bottom, lastPhaseChangeMs := ts\<rparr>
                   else st
               | Bottom \<Rightarrow>
                   if enterTopAbove th < degrees a
                   then st\<lparr>phase := Top, count := count st + 1, lastPhaseChangeMs := ts\<rparr>
                   else st
               | InTransition \<Rightarrow> st))"

text \<open>The machine driven by a sequence of angle readings, each with its timestamp.\<close>

fun repRun :: "EngineConfig \<Rightarrow> RepCounterState \<Rightarrow> (JointAngle \<times> int) list \<Rightarrow> RepCounterState" where
  "repRun cfg st [] = st"
| "repRun cfg st (f # fs) = repRun cfg (repStep cfg st (fst f) (snd f)) fs"

text \<open>How often the run moves from phase \<open>p\<close> to phase \<open>q\<close>.\<close>

fun transitions ::
  "RepPhase \<Rightarrow> RepPhase \<Rightarrow> EngineConfig \<Rightarrow> RepCounterState \<Rightarrow> (JointAngle \<times> int) list \<Rightarrow> nat" where
  "transitions p q cfg st [] = 0"
| "transitions p q cfg st (f # fs) =
     (if phase st = p \<and> phase (repStep cfg st (fst f) (snd f)) = q then 1 else 0)
       + transitions p q cfg (repStep cfg st (fst f) (snd f)) fs"

text \<open>Modelled from the spec: the initial state of a machine is \<open>Top\<close>, with nothing counted.\<close>

definition freshCounter :: "ExerciseType \<Rightarrow> RepCounterState" where
  "freshCounter e = \<lparr>exercise = e, phase = Top, count = 0, lastPhaseChangeMs = 0\<rparr>"

subsection \<open>Classifier smoothing\<close>

text \<open>
  Modelled from the spec: the vote of section 4.3, which is not in the sources. The
  history is a ring buffer of the last \<open>windowSize\<close> instantaneous results, newest
  first. The current exercise switches to this frame's result once that result fills
  the majority fraction of the window, and stays otherwise.
\<close>

definition tally :: "ExerciseType \<Rightarrow> ExerciseType list \<Rightarrow> nat" where
  "tally e hist = length (filter (\<lambda>h. h = e) hist)"

definition smoothed :: "EngineConfig \<Rightarrow> SessionState \<Rightarrow> ExerciseType \<Rightarrow> ExerciseType list \<times> ExerciseType" where
  "smoothed cfg s r =
     (let hist = take (windowSize cfg) (r # classifierHistory s)
      in (hist,
          if majorityPercent cfg * windowSize cfg \<le> 100 * tally r hist then r
          else currentExercise s))"

subsection \<open>Feedback cooldown\<close>

text \<open>
  Modelled from the spec: the rate limit of section 4.5. Each violated rule gives one
  warning, unless its code was emitted within the cooldown.
\<close>

definition recentlyEmitted :: "EngineConfig \<Rightarrow> FeedbackEvent list \<Rightarrow> int \<Rightarrow> FeedbackCode \<Rightarrow> bool" where
  "recentlyEmitted cfg evs ts c =
     list_ex (\<lambda>e. code e = c \<and> ts - eventTimestampMs e < cooldownMs cfg) evs"

fun emitFeedback ::
  "EngineConfig \<Rightarrow> FeedbackEvent list \<Rightarrow> int \<Rightarrow> (FeedbackCode \<times> string) list \<Rightarrow> FeedbackEvent list" where
  "emitFeedback cfg evs ts [] = []"
| "emitFeedback cfg evs ts (v # vs) =
     (if recentlyEmitted cfg evs ts (fst v) then emitFeedback cfg evs ts vs
      else (let e = \<lparr>code = fst v, severity = Warning, message = snd v, eventTimestampMs = ts\<rparr>
            in e # emitFeedback cfg (e # evs) ts vs))"

subsection \<open>Session aggregator\<close>

text \<open>Modelled from the spec: a session before its first frame; every machine in \<open>Top\<close>.\<close>

definition freshSession :: SessionState where
  "freshSession =
     \<lparr>currentExercise = Unknown, counters = freshCounter, feedbackLog = [],
      classifierHistory = [], filterState = (\<lambda>n. None)\<rparr>"

text \<open>
  Modelled from the spec: \<open>reset()\<close> of section 4.6, which clears all counters, phases,
  classifier history and filter state. The specification names nothing else, so the
  current exercise and the feedback log are left as they are.
\<close>

definition reset :: "SessionState \<Rightarrow> SessionState" where
  "reset s = s\<lparr>counters := freshCounter, classifierHistory := [], filterState := (\<lambda>n. None)\<rparr>"

definition snapshotOf :: "SessionState \<Rightarrow> FeedbackEvent list \<Rightarrow> Snapshot" where
  "snapshotOf s new =
     \<lparr>snapExercise = currentExercise s, counts = (\<lambda>e. count (counters s e)), newFeedback = new\<rparr>"

text \<open>
  Modelled from the spec: one frame through the pipeline of sections 2 and 4.6. The
  pose is filtered, angles are derived, the instantaneous result enters the vote. When
  no candidate exceeds the threshold (the instantaneous result is \<open>Unknown\<close>), or when
  the current exercise is \<open>Unknown\<close>, counters freeze and the form evaluator is skipped
  (section 7, case 3). Otherwise only the current exercise's machine is driven, by its
  tracked angle, and the form rules of that exercise are evaluated.
\<close>

definition processFrame ::
  "EngineConfig \<Rightarrow> EngineParts \<Rightarrow> SessionState \<Rightarrow> Pose \<Rightarrow> SessionState \<times> Snapshot" where
  "processFrame cfg parts s pose =
     (let (fs, filtered) = keypointFilter parts cfg (filterState s) pose;
          angles = jointAngles parts filtered;
          r = topCandidate parts cfg angles;
          (hist, cur) = smoothed cfg s r;
          s1 = s\<lparr>currentExercise := cur, classifierHistory := hist, filterState := fs\<rparr>
      in if r = Unknown \<or> cur = Unknown then (s1, snapshotOf s1 [])
         else
           (let c = repStep cfg (counters s cur) (angles (trackedJoint parts cur)) (timestampMs pose);
                new = emitFeedback cfg (feedbackLog s) (timestampMs pose) (violatedRules parts cur angles);
                s2 = s1\<lparr>counters := (counters s)(cur := c),
                        feedbackLog := take (feedbackLogCapacity cfg) (rev new @ feedbackLog s)\<rparr>
            in (s2, snapshotOf s2 new)))"

text \<open>A sequence of poses: the final state and the snapshot of every frame, in order.\<close>

fun runSession ::
  "EngineConfig \<Rightarrow> EngineParts \<Rightarrow> SessionState \<Rightarrow> Pose list \<Rightarrow> SessionState \<times> Snapshot list" where
  "runSession cfg parts s [] = (s, [])"
| "runSession cfg parts s (p # ps) =
     (let (s1, snap) = processFrame cfg parts s p;
          (s2, snaps) = runSession cfg parts s1 ps
      in (s2, snap # snaps))"

subsection \<open>Sample inputs\<close>

text \<open>The squat thresholds are the example of section 4.4.\<close>

definition squatThresholds :: PhaseThresholds where
  "squatThresholds = \<lparr>enterBottomBelow = 100, enterTopAbove = 160\<rparr>"

definition sampleConfig :: EngineConfig where
  "sampleConfig = defaultConfig (\<lambda>e. squatThresholds) 50"

definition reading :: "rat \<Rightarrow> int \<Rightarrow> JointAngle \<times> int" where
  "reading deg ts = (\<lparr>joint = HipKneeAnkle, degrees = deg, confidence = 1\<rparr>, ts)"

text \<open>
  A stand-in for the open parts, for running examples. The filter passes the pose on.
  Each angle is read off the keypoint at its vertex: the x coordinate stands for the
  degrees, the keypoint's confidence for the angle's, and a missing keypoint gives
  confidence zero. The candidate is the squat when the knee angle is usable, else the
  push-up when the elbow angle is, else none. The squat is tracked by the knee angle,
  every other exercise by the elbow angle. One rule: a usable hip-shoulder-knee angle
  under 150 degrees during a squat.
\<close>

fun vertex :: "AngleJoint \<Rightarrow> JointName" where
  "vertex HipKneeAnkle = Knee"
| "vertex ShoulderElbowWrist = Elbow"
| "vertex HipShoulderKnee = Shoulder"
| "vertex ElbowShoulderHip = Shoulder"

definition sampleAngles :: "Pose \<Rightarrow> AngleJoint \<Rightarrow> JointAngle" where
  "sampleAngles p j =
     (case filter (\<lambda>k. kpName k = vertex j) (keypoints p) of
        [] \<Rightarrow> \<lparr>joint = j, degrees = 0, confidence = 0\<rparr>
      | k # _ \<Rightarrow> \<lparr>joint = j, degrees = xPos k, confidence = kpConfidence k\<rparr>)"

definition sampleParts :: EngineParts where
  "sampleParts =
     \<lparr>keypointFilter = (\<lambda>cfg fs p. (fs, p)),
      jointAngles = sampleAngles,
      topCandidate = (\<lambda>cfg a.
         if confidenceThreshold cfg \<le> confidence (a HipKneeAnkle) then Squat
         else if confidenceThreshold cfg \<le> confidence (a ShoulderElbowWrist) then Pushup
         else Unknown),
      trackedJoint = (\<lambda>e. if e = Squat then HipKneeAnkle else ShoulderElbowWrist),
      violatedRules = (\<lambda>e a.
         if e = Squat \<and> confidence (a HipShoulderKnee) \<ge> 3 / 10 \<and> degrees (a HipShoulderKnee) < 150
         then [(''LEAN_FORWARD'', ''leaning too far forward'')] else [])\<rparr>"

definition kneePose :: "rat \<Rightarrow> int \<Rightarrow> Pose" where
  "kneePose deg ts =
     \<lparr>keypoints = [\<lparr>kpName = Knee, xPos = deg, yPos = 0, kpConfidence = 1\<rparr>], timestampMs = ts\<rparr>"

definition elbowPose :: "rat \<Rightarrow> int \<Rightarrow> Pose" where
  "elbowPose deg ts =
     \<lparr>keypoints = [\<lparr>kpName = Elbow, xPos = deg, yPos = 0, kpConfidence = 1\<rparr>], timestampMs = ts\<rparr>"

definition faintPose :: "rat \<Rightarrow> int \<Rightarrow> Pose" where
  "faintPose deg ts =
     \<lparr>keypoints = [\<lparr>kpName = Knee, xPos = deg, yPos = 0, kpConfidence = 1 / 10\<rparr>], timestampMs = ts\<rparr>"

text \<open>A session in which the squat has been the top choice for the whole window.\<close>

definition squatSession :: SessionState where
  "squatSession =
     freshSession\<lparr>currentExercise := Squat,
       classifierHistory := [Squat, Squat, Squat, Squat, Squat, Squat, Squat, Squat, Squat, Squat]\<rparr>"

text \<open>The instantaneous result of the classifier on a frame, before the vote.\<close>

definition instantResult :: "EngineConfig \<Rightarrow> EngineParts \<Rightarrow> SessionState \<Rightarrow> Pose \<Rightarrow> ExerciseType" where
  "instantResult cfg parts s pose =
     topCandidate parts cfg (jointAngles parts (snd (keypointFilter parts cfg (filterState s) pose)))"

text \<open>Two squats, each extreme held for 400 ms.\<close>

definition squatCycles :: "(JointAngle \<times> int) list" where
  "squatCycles = [reading 170 0, reading 170 200, reading 95 400, reading 95 600,
     reading 170 800, reading 170 1000, reading 95 1200, reading 170 1400]"

definition leanEvent :: "int \<Rightarrow> FeedbackEvent" where
  "leanEvent ts = \<lparr>code = ''LEAN_FORWARD'', severity = Warning,
     message = ''leaning too far forward'', eventTimestampMs = ts\<rparr>"



text \<open>A squat down at 1000 ms and up again at 1200 ms, as poses.\<close>

definition squatDown :: "Pose list" where
  "squatDown = [kneePose 95 1000, kneePose 170 1200]"

text \<open>A fresh squat counter after the knee angle went below 100 degrees at 1000 ms.\<close>

definition afterCrossing :: RepCounterState where
  "afterCrossing = \<lparr>exercise = Squat, phase = Bottom, count = 0, lastPhaseChangeMs = 1000\<rparr>"


section \<open>Properties of the webcam component\<close>

subsection \<open>The throttle of one run\<close>

lemma frameDuration_pos: "0 < frameDuration"
  by (simp add: frameDuration_def)

lemma captureFrame_effect:
  assumes "finalState (captureFrame onFrame t cs) = cs'"
  shows "(onFrameCalls cs' = onFrameCalls cs \<and> lastFrameTime cs' = lastFrameTime cs)
       \<or> (timestamp t - lastFrameTime cs \<ge> frameDuration \<and> lastFrameTime cs' = timestamp t
            \<and> (onFrameCalls cs' = onFrameCalls cs
                 \<or> (\<exists>img. onFrameCalls cs' = (timestamp t, img) # onFrameCalls cs)))"
  using assms
  by (auto simp: captureFrame_def finalState_def deref_def tryCatch_def captureCatch_def
        captureTry_def Let_def requestAnimationFrame_def
           split: option.splits sum.splits prod.splits if_splits)

lemma captureFrame_paced:
  assumes p: "paced cs"
  shows "paced (finalState (captureFrame onFrame t cs))"
proof -
  define cs' where "cs' = finalState (captureFrame onFrame t cs)"
  consider
    (same) "onFrameCalls cs' = onFrameCalls cs" "lastFrameTime cs' = lastFrameTime cs"
  | (skipped) "timestamp t - lastFrameTime cs \<ge> frameDuration" "lastFrameTime cs' = timestamp t"
      "onFrameCalls cs' = onFrameCalls cs"
  | (called) img where "timestamp t - lastFrameTime cs \<ge> frameDuration"
      "lastFrameTime cs' = timestamp t" "onFrameCalls cs' = (timestamp t, img) # onFrameCalls cs"
    using captureFrame_effect [of onFrame t cs cs'] cs'_def by blast
  then have "paced cs'"
  proof cases
    case same
    then show ?thesis using p by (simp add: paced_def)
  next
    case skipped
    then show ?thesis using p frameDuration_pos
      by (cases "onFrameCalls cs") (auto simp: paced_def)
  next
    case called
    then show ?thesis using p
      by (cases "onFrameCalls cs") (auto simp: paced_def)
  qed
  then show ?thesis by (simp add: cs'_def)
qed

lemma captureLoop_paced:
  "paced cs \<Longrightarrow> paced (finalState (captureLoop onFrame cs ticks))"
proof (induction ticks arbitrary: cs)
  case Nil
  then show ?case by (simp add: finalState_def)
next
  case (Cons t ticks)
  show ?case
  proof (cases "pending cs")
    case False
    then show ?thesis using Cons.prems by (simp add: finalState_def)
  next
    case True
    have step: "paced (finalState (captureFrame onFrame t cs))"
      using Cons.prems by (rule captureFrame_paced)
    show ?thesis
    proof (cases "captureFrame onFrame t cs")
      case (Inl r)
      then show ?thesis using True step by simp
    next
      case (Inr cs1)
      then have "paced cs1" using step by (simp add: finalState_def)
      then show ?thesis using Cons.IH True Inr by simp
    qed
  qed
qed

lemma paced_startCapture: "paced startCapture"
  by (simp add: paced_def startCapture_def requestAnimationFrame_def)

lemma captureFrame_good:
  "captureFrame acceptFrame (tickAt ts goodCanvas) cs =
     (if frameDuration \<le> ts - lastFrameTime cs
      then Inr (cs\<lparr>pending := True, lastFrameTime := ts,
                   onFrameCalls := (ts, sampleImage) # onFrameCalls cs\<rparr>)
      else Inr (cs\<lparr>pending := True\<rparr>))"
  by (simp add: captureFrame_def tickAt_def goodCanvas_def deref_def tryCatch_def captureTry_def
      acceptFrame_def requestAnimationFrame_def Let_def)

lemma captureFrame_broken:
  "captureFrame acceptFrame (tickAt ts brokenCanvas) cs =
     (if frameDuration \<le> ts - lastFrameTime cs
      then Inr (cs\<lparr>pending := True, lastFrameTime := ts,
                   errorLog := ''InvalidStateError'' # errorLog cs\<rparr>)
      else Inr (cs\<lparr>pending := True\<rparr>))"
  by (simp add: captureFrame_def tickAt_def brokenCanvas_def deref_def tryCatch_def captureTry_def
      captureCatch_def requestAnimationFrame_def Let_def)

lemma captureFrame_contextless:
  "captureFrame acceptFrame (tickAt ts contextlessCanvas) cs =
     (if frameDuration \<le> ts - lastFrameTime cs
      then Inr (cs\<lparr>pending := False, lastFrameTime := ts\<rparr>)
      else Inr (cs\<lparr>pending := True\<rparr>))"
  by (simp add: captureFrame_def tickAt_def contextlessCanvas_def deref_def
      requestAnimationFrame_def Let_def)

lemma captureFrame_throwing:
  "captureFrame acceptFrame (tickAt ts throwingCanvas) cs =
     (if frameDuration \<le> ts - lastFrameTime cs
      then Inl (''InvalidStateError'', cs\<lparr>pending := False, lastFrameTime := ts\<rparr>)
      else Inr (cs\<lparr>pending := True\<rparr>))"
  by (simp add: captureFrame_def tickAt_def throwingCanvas_def deref_def
      requestAnimationFrame_def Let_def)

lemma sampleTicks_run:
  "captureLoop acceptFrame startCapture sampleTicks =
     Inr \<lparr>lastFrameTime = 120,
          onFrameCalls = [(120, sampleImage), (80, sampleImage), (40, sampleImage)],
          errorLog = [], pending = True\<rparr>"
  by (simp add: sampleTicks_def startCapture_def requestAnimationFrame_def captureFrame_good
      frameDuration_def)

lemma twoRuns_calls: "map fst (captureRuns [] twoRuns) = [56, 40]"
  by (simp add: twoRuns_def startCapture_def requestAnimationFrame_def captureFrame_good
      frameDuration_def finalState_def)

text \<open>
  C8 as stated does not hold. The throttle's \<open>lastFrameTime\<close> belongs to one run of the
  effect. A callback at 40 ms calls \<open>onFrame\<close>; a dependency of the effect changes, the
  effect runs again with \<open>lastFrameTime = 0\<close>, and its first callback, at 56 ms, calls
  \<open>onFrame\<close> too: two consecutive calls 16 ms apart.
\<close>

theorem rerun_breaks_spacing_counterexample:
  "map fst (captureRuns [] twoRuns) = [56, 40] \<and> \<not> spaced (map fst (captureRuns [] twoRuns))"
  by (simp add: twoRuns_calls frameDuration_def)

text \<open>
  C8, amended. Within one run of the capture effect, whatever animation frames the
  browser delivers and however the run ends, any two consecutive calls of \<open>onFrame\<close>
  come from callbacks whose timestamps differ by at least \<open>1000 / 30\<close> milliseconds. The
  bound does not reach across runs: every run of the effect starts its own throttle.
\<close>

theorem captureLoop_throttled:
  "spaced (map fst (onFrameCalls (finalState (captureLoop onFrame startCapture ticks))))"
proof -
  have "paced (finalState (captureLoop onFrame startCapture ticks))"
    using paced_startCapture by (rule captureLoop_paced)
  then show ?thesis by (simp add: paced_def)
qed

theorem captureLoop_throttled_witness:
  "map fst (onFrameCalls (finalState (captureLoop acceptFrame startCapture sampleTicks)))
      = [120, 80, 40]
   \<and> spaced [120, 80, 40]"
proof -
  have c: "map fst (onFrameCalls (finalState (captureLoop acceptFrame startCapture sampleTicks)))
      = [120, 80, 40]"
    by (simp add: sampleTicks_run finalState_def)
  show ?thesis
    using captureLoop_throttled [of acceptFrame sampleTicks] c by simp
qed

subsection \<open>A denied camera\<close>

text \<open>
  C9. When the camera is switched on and \<open>getUserMedia\<close> rejects, with whatever error,
  \<open>setupCamera\<close> ends normally with \<open>hasPermission\<close> false and \<open>isLoading\<close> false. The
  capture effect starts no loop, neither while the request is open nor afterwards, so
  \<open>onFrame\<close> is not called.
\<close>

theorem setupCamera_denied:
  assumes "isCameraActive st"
  shows "\<exists>st'. setupCamera (Denied e) st = Inr st' \<and> hasPermission st' = Some False
           \<and> isLoading st' = False
           \<and> frameEffect (fst (setupTry (Denied e) st)) onFrameProp = None
           \<and> frameEffect st' onFrameProp = None
           \<and> framesDelivered st' onFrameProp ticks = Inr []"
  using assms
  by (simp add: setupCamera_def tryCatch_def setupTry_def setupCatch_def frameEffect_def
      framesDelivered_def)

theorem setupCamera_denied_witness:
  "isCameraActive cameraOn \<and> (\<exists>st'. setupCamera (Denied ''NotAllowedError'') cameraOn = Inr st'
      \<and> hasPermission st' = Some False \<and> isLoading st' = False
      \<and> consoleErrors st' = [''NotAllowedError'']
      \<and> framesDelivered st' (Some acceptFrame) sampleTicks = Inr [])"
proof -
  have a: "isCameraActive cameraOn" by (simp add: cameraOn_def)
  obtain st' where s: "setupCamera (Denied ''NotAllowedError'') cameraOn = Inr st'"
    and p: "hasPermission st' = Some False" "isLoading st' = False"
    and f: "framesDelivered st' (Some acceptFrame) sampleTicks = Inr []"
    using setupCamera_denied [OF a, of "''NotAllowedError''" "Some acceptFrame" sampleTicks]
    by blast
  have "consoleErrors st' = [''NotAllowedError'']"
    using s by (auto simp: setupCamera_def tryCatch_def setupTry_def setupCatch_def cameraOn_def)
  then show ?thesis using a s p f by blast
qed

text \<open>For comparison: a granted camera whose metadata has loaded does deliver frames.\<close>

lemma setupCamera_granted_delivers:
  "\<exists>st'. setupCamera (Granted 7) cameraOn = Inr st'
     \<and> framesDelivered (loadedMetadata st') (Some acceptFrame) sampleTicks =
         Inr [(120, sampleImage), (80, sampleImage), (40, sampleImage)]"
  by (simp add: setupCamera_def tryCatch_def setupTry_def cameraOn_def loadedMetadata_def
      framesDelivered_def frameEffect_def sampleTicks_run)

subsection \<open>Null references and bad frames\<close>

text \<open>The two guards return without asking for another animation frame.\<close>

lemma captureFrame_null_returns:
  assumes "videoRef t = None \<or> canvasRef t = None"
  shows "captureFrame onFrame t cs = Inr (cs\<lparr>pending := False\<rparr>)"
  using assms by (auto simp: captureFrame_def)

lemma captureFrame_no_context:
  assumes "videoRef t \<noteq> None" and "canvasRef t = Some c" and "getContext c = Inr None"
    and "frameDuration \<le> timestamp t - lastFrameTime cs"
  shows "captureFrame onFrame t cs = Inr (cs\<lparr>pending := False, lastFrameTime := timestamp t\<rparr>)"
  using assms by (auto simp: captureFrame_def deref_def Let_def)

text \<open>What the \<open>try\<close> catches: drawing, reading, and the handler itself.\<close>

lemma captureFrame_caught:
  assumes "videoRef t \<noteq> None" and "canvasRef t = Some c" and "getContext c = Inr (Some ctx)"
    and "frameDuration \<le> timestamp t - lastFrameTime cs"
    and "drawImage ctx = Some e \<or> drawImage ctx = None \<and> getImageData ctx = Inl e"
  shows "captureFrame onFrame t cs =
           Inr (cs\<lparr>pending := True, lastFrameTime := timestamp t, errorLog := e # errorLog cs\<rparr>)"
  using assms
  by (auto simp: captureFrame_def deref_def Let_def requestAnimationFrame_def tryCatch_def
      captureTry_def captureCatch_def)

lemma captureFrame_handler_throws:
  assumes "videoRef t \<noteq> None" and "canvasRef t = Some c" and "getContext c = Inr (Some ctx)"
    and "frameDuration \<le> timestamp t - lastFrameTime cs"
    and "drawImage ctx = None" and "getImageData ctx = Inr img" and "onFrame img = Some e"
  shows "captureFrame onFrame t cs =
           Inr (cs\<lparr>pending := True, lastFrameTime := timestamp t,
                   onFrameCalls := (timestamp t, img) # onFrameCalls cs,
                   errorLog := e # errorLog cs\<rparr>)"
  using assms
  by (auto simp: captureFrame_def deref_def Let_def requestAnimationFrame_def tryCatch_def
      captureTry_def captureCatch_def)

text \<open>What it does not catch: \<open>getContext\<close>, and nothing else.\<close>

lemma captureFrame_getContext_throws:
  assumes "videoRef t \<noteq> None" and "canvasRef t = Some c" and "getContext c = Inl e"
    and "frameDuration \<le> timestamp t - lastFrameTime cs"
  shows "captureFrame onFrame t cs = Inl (e, cs\<lparr>pending := False, lastFrameTime := timestamp t\<rparr>)"
  using assms by (auto simp: captureFrame_def deref_def Let_def)

lemma captureFrame_escape:
  assumes "captureFrame onFrame t cs = Inl (e, cs')"
  shows "videoRef t \<noteq> None \<and> (\<exists>c. canvasRef t = Some c \<and> getContext c = Inl e)
     \<and> frameDuration \<le> timestamp t - lastFrameTime cs
     \<and> cs' = cs\<lparr>pending := False, lastFrameTime := timestamp t\<rparr>"
  using assms
  by (auto simp: captureFrame_def deref_def tryCatch_def captureCatch_def Let_def
           split: option.splits sum.splits prod.splits if_splits)

text \<open>
  C10 as stated does not hold. A single frame on which the canvas gives no 2D context
  ends the capture loop: \<open>captureFrame\<close> returns before it asks for the next animation
  frame, so the two good frames that follow are never processed. Without that frame
  they are both delivered.
\<close>

theorem null_frame_ends_loop_counterexample:
  "captureLoop acceptFrame startCapture nullThenGood =
     Inr \<lparr>lastFrameTime = 40, onFrameCalls = [], errorLog = [], pending = False\<rparr>
   \<and> captureLoop acceptFrame startCapture (tl nullThenGood) =
     Inr \<lparr>lastFrameTime = 120, onFrameCalls = [(120, sampleImage), (80, sampleImage)],
          errorLog = [], pending = True\<rparr>"
  by (simp add: nullThenGood_def startCapture_def requestAnimationFrame_def captureFrame_good
      captureFrame_contextless frameDuration_def)

text \<open>
  C10, amended. \<open>captureFrame\<close> never reads through a null reference. When the video
  reference or the canvas reference is null, or the 2D context is null, it returns
  without calling \<open>onFrame\<close> and without requesting another animation frame: such a
  frame ends the loop. When drawing or reading the frame throws, the exception is
  caught and logged, \<open>onFrame\<close> is not called for that frame and the next animation
  frame is requested: such a frame does not end the loop. No exception leaves
  \<open>captureFrame\<close> unless \<open>getContext\<close>, which is called before the \<open>try\<close>, itself throws;
  in particular none comes from reading through a null reference.
\<close>

theorem captureFrame_guarded:
  "(videoRef t = None \<or> canvasRef t = None
      \<longrightarrow> captureFrame onFrame t cs = Inr (cs\<lparr>pending := False\<rparr>))
   \<and> (\<forall>c. videoRef t \<noteq> None \<and> canvasRef t = Some c \<and> getContext c = Inr None
          \<and> frameDuration \<le> timestamp t - lastFrameTime cs
        \<longrightarrow> captureFrame onFrame t cs
              = Inr (cs\<lparr>pending := False, lastFrameTime := timestamp t\<rparr>))
   \<and> (\<forall>c ctx e. videoRef t \<noteq> None \<and> canvasRef t = Some c \<and> getContext c = Inr (Some ctx)
          \<and> frameDuration \<le> timestamp t - lastFrameTime cs
          \<and> (drawImage ctx = Some e \<or> drawImage ctx = None \<and> getImageData ctx = Inl e)
        \<longrightarrow> captureFrame onFrame t cs
              = Inr (cs\<lparr>pending := True, lastFrameTime := timestamp t,
                        errorLog := e # errorLog cs\<rparr>))
   \<and> (\<forall>e cs'. captureFrame onFrame t cs = Inl (e, cs')
        \<longrightarrow> (\<exists>c. canvasRef t = Some c \<and> getContext c = Inl e)
            \<and> onFrameCalls cs' = onFrameCalls cs \<and> \<not> pending cs')"
proof -
  have 1: "videoRef t = None \<or> canvasRef t = None
      \<longrightarrow> captureFrame onFrame t cs = Inr (cs\<lparr>pending := False\<rparr>)"
    using captureFrame_null_returns by blast
  have 2: "\<forall>c. videoRef t \<noteq> None \<and> canvasRef t = Some c \<and> getContext c = Inr None
          \<and> frameDuration \<le> timestamp t - lastFrameTime cs
        \<longrightarrow> captureFrame onFrame t cs
              = Inr (cs\<lparr>pending := False, lastFrameTime := timestamp t\<rparr>)"
    using captureFrame_no_context by blast
  have 3: "\<forall>c ctx e. videoRef t \<noteq> None \<and> canvasRef t = Some c \<and> getContext c = Inr (Some ctx)
          \<and> frameDuration \<le> timestamp t - lastFrameTime cs
          \<and> (drawImage ctx = Some e \<or> drawImage ctx = None \<and> getImageData ctx = Inl e)
        \<longrightarrow> captureFrame onFrame t cs
              = Inr (cs\<lparr>pending := True, lastFrameTime := timestamp t,
                        errorLog := e # errorLog cs\<rparr>)"
    using captureFrame_caught by blast
  have 4: "\<forall>e cs'. captureFrame onFrame t cs = Inl (e, cs')
        \<longrightarrow> (\<exists>c. canvasRef t = Some c \<and> getContext c = Inl e)
            \<and> onFrameCalls cs' = onFrameCalls cs \<and> \<not> pending cs'"
  proof (intro allI impI)
    fix e cs'
    assume a: "captureFrame onFrame t cs = Inl (e, cs')"
    show "(\<exists>c. canvasRef t = Some c \<and> getContext c = Inl e)
            \<and> onFrameCalls cs' = onFrameCalls cs \<and> \<not> pending cs'"
      using captureFrame_escape [OF a] by auto
  qed
  show ?thesis using 1 2 3 4 by blast
qed

theorem captureFrame_guarded_witness:
  "captureFrame acceptFrame (tickAt 80 brokenCanvas) startCapture
     = Inr \<lparr>lastFrameTime = 80, onFrameCalls = [], errorLog = [''InvalidStateError''],
            pending = True\<rparr>
   \<and> captureFrame acceptFrame (tickAt 80 contextlessCanvas) startCapture
     = Inr \<lparr>lastFrameTime = 80, onFrameCalls = [], errorLog = [], pending = False\<rparr>"
proof -
  have b: "videoRef (tickAt 80 brokenCanvas) \<noteq> None
      \<and> canvasRef (tickAt 80 brokenCanvas) = Some brokenCanvas
      \<and> getContext brokenCanvas
          = Inr (Some \<lparr>drawImage = Some ''InvalidStateError'', getImageData = Inr sampleImage\<rparr>)
      \<and> frameDuration \<le> timestamp (tickAt 80 brokenCanvas) - lastFrameTime startCapture
      \<and> (drawImage \<lparr>drawImage = Some ''InvalidStateError'', getImageData = Inr sampleImage\<rparr>
            = Some ''InvalidStateError''
          \<or> drawImage \<lparr>drawImage = Some ''InvalidStateError'', getImageData = Inr sampleImage\<rparr>
              = None
            \<and> getImageData \<lparr>drawImage = Some ''InvalidStateError'', getImageData = Inr sampleImage\<rparr>
              = Inl ''InvalidStateError'')"
    by (simp add: tickAt_def brokenCanvas_def startCapture_def requestAnimationFrame_def
        frameDuration_def)
  have n: "videoRef (tickAt 80 contextlessCanvas) \<noteq> None
      \<and> canvasRef (tickAt 80 contextlessCanvas) = Some contextlessCanvas
      \<and> getContext contextlessCanvas = Inr None
      \<and> frameDuration \<le> timestamp (tickAt 80 contextlessCanvas) - lastFrameTime startCapture"
    by (simp add: tickAt_def contextlessCanvas_def startCapture_def requestAnimationFrame_def
        frameDuration_def)
  have "captureFrame acceptFrame (tickAt 80 brokenCanvas) startCapture
      = Inr (startCapture\<lparr>pending := True, lastFrameTime := timestamp (tickAt 80 brokenCanvas),
                errorLog := ''InvalidStateError'' # errorLog startCapture\<rparr>)"
    using b captureFrame_guarded [of "tickAt 80 brokenCanvas" acceptFrame startCapture] by blast
  moreover have "captureFrame acceptFrame (tickAt 80 contextlessCanvas) startCapture
      = Inr (startCapture\<lparr>pending := False,
                lastFrameTime := timestamp (tickAt 80 contextlessCanvas)\<rparr>)"
    using n captureFrame_guarded [of "tickAt 80 contextlessCanvas" acceptFrame startCapture]
    by blast
  ultimately show ?thesis
    by (simp add: startCapture_def requestAnimationFrame_def tickAt_def)
qed

text \<open>A frame that throws between two good ones: the good ones are both delivered.\<close>

lemma bad_frame_between:
  "captureLoop acceptFrame startCapture
       [tickAt 40 goodCanvas, tickAt 80 brokenCanvas, tickAt 120 goodCanvas] =
     Inr \<lparr>lastFrameTime = 120, onFrameCalls = [(120, sampleImage), (40, sampleImage)],
          errorLog = [''InvalidStateError''], pending = True\<rparr>"
  by (simp add: startCapture_def requestAnimationFrame_def captureFrame_good captureFrame_broken
      frameDuration_def)

text \<open>A frame on which \<open>getContext\<close> throws: the exception leaves and the loop ends.\<close>

lemma getContext_throw_ends_loop:
  "captureLoop acceptFrame startCapture
       [tickAt 40 goodCanvas, tickAt 80 throwingCanvas, tickAt 120 goodCanvas] =
     Inl (''InvalidStateError'',
          \<lparr>lastFrameTime = 80, onFrameCalls = [(40, sampleImage)], errorLog = [],
           pending = False\<rparr>)"
  by (simp add: startCapture_def requestAnimationFrame_def captureFrame_good
      captureFrame_throwing frameDuration_def)


section \<open>Properties of the engine\<close>

subsection \<open>Evaluating the samples\<close>

lemma repStep_reading:
  "repStep sampleConfig st (fst (reading d t)) (snd (reading d t)) =
     (if t - lastPhaseChangeMs st < 150 then st
      else (case phase st of
              Top \<Rightarrow> if d < 100 then st\<lparr>phase := Bottom, lastPhaseChangeMs := t\<rparr> else st
            | Bottom \<Rightarrow>
                if 160 < d then st\<lparr>phase := Top, count := count st + 1, lastPhaseChangeMs := t\<rparr>
                else st
            | InTransition \<Rightarrow> st))"
  by (cases "phase st")
    (simp_all add: repStep_def sampleConfig_def defaultConfig_def squatThresholds_def reading_def
      Let_def)

lemma squatCycles_ups:
  "transitions Bottom Top sampleConfig (freshCounter Squat) squatCycles = 2"
  by (simp add: squatCycles_def repStep_reading freshCounter_def)

lemma squatCycles_downs:
  "transitions Top Bottom sampleConfig (freshCounter Squat) squatCycles = 2"
  by (simp add: squatCycles_def repStep_reading freshCounter_def)

subsection \<open>Counting repetitions\<close>

lemma repStep_count:
  "count (repStep cfg st a ts) =
     count st + (if phase st = Bottom \<and> phase (repStep cfg st a ts) = Top then 1 else 0)"
  by (cases "phase st") (simp_all add: repStep_def Let_def)

lemma repStep_count_le: "count st \<le> count (repStep cfg st a ts)"
  by (simp add: repStep_count)

lemma repRun_count:
  "count (repRun cfg st fs) = count st + transitions Bottom Top cfg st fs"
proof (induction fs arbitrary: st)
  case Nil
  show ?case by simp
next
  case (Cons f fs)
  show ?case
    using Cons.IH [of "repStep cfg st (fst f) (snd f)"] repStep_count [of cfg st "fst f" "snd f"]
    by simp
qed

lemma repStep_phase_cases:
  "phase (repStep cfg st a ts) = phase st
   \<or> (phase st = Top \<and> phase (repStep cfg st a ts) = Bottom)
   \<or> (phase st = Bottom \<and> phase (repStep cfg st a ts) = Top)"
  by (cases "phase st") (simp_all add: repStep_def Let_def)

text \<open>Moves up and moves down alternate, so there are never more ups than downs.\<close>

lemma ups_le_downs:
  "transitions Bottom Top cfg st fs
     \<le> transitions Top Bottom cfg st fs + (if phase st = Bottom then 1 else 0)"
proof (induction fs arbitrary: st)
  case Nil
  show ?case by simp
next
  case (Cons f fs)
  let ?st = "repStep cfg st (fst f) (snd f)"
  show ?case
    using Cons.IH [of ?st] repStep_phase_cases [of cfg st "fst f" "snd f"]
    by (auto split: if_splits)
qed

text \<open>
  C1. For every exercise's machine, in every state and on every reading, the count
  grows by exactly one when the step goes from \<open>Bottom\<close> to \<open>Top\<close> and stays as it is on
  every other step. Over a whole sequence the count therefore grows by the number of
  moves from \<open>Bottom\<close> to \<open>Top\<close>, and these are no more than the moves from \<open>Top\<close> to
  \<open>Bottom\<close> (plus one if the sequence starts in \<open>Bottom\<close>): at most one increment per
  down-and-up cycle.
\<close>

theorem rep_counted_on_bottom_to_top:
  "count (repStep cfg st a ts)
      = count st + (if phase st = Bottom \<and> phase (repStep cfg st a ts) = Top then 1 else 0)
   \<and> count (repRun cfg st fs) = count st + transitions Bottom Top cfg st fs
   \<and> transitions Bottom Top cfg st fs
        \<le> transitions Top Bottom cfg st fs + (if phase st = Bottom then 1 else 0)"
  using repStep_count repRun_count ups_le_downs by blast

theorem rep_counted_on_bottom_to_top_witness:
  "count (repRun sampleConfig (freshCounter Squat) squatCycles) = 2
   \<and> transitions Top Bottom sampleConfig (freshCounter Squat) squatCycles = 2"
proof -
  have "count (repRun sampleConfig (freshCounter Squat) squatCycles)
      = count (freshCounter Squat)
        + transitions Bottom Top sampleConfig (freshCounter Squat) squatCycles"
    using rep_counted_on_bottom_to_top [of sampleConfig "freshCounter Squat" _ _ squatCycles]
    by blast
  also have "\<dots> = 2"
    by (simp only: squatCycles_ups) (simp add: freshCounter_def)
  finally show ?thesis by (simp add: squatCycles_downs)
qed

subsection \<open>Evaluating the sample session\<close>

lemma sampleAngles_knee:
  "sampleAngles (kneePose d t) j =
     (if j = HipKneeAnkle then \<lparr>joint = j, degrees = d, confidence = 1\<rparr>
      else \<lparr>joint = j, degrees = 0, confidence = 0\<rparr>)"
  by (cases j) (simp_all add: sampleAngles_def kneePose_def)

lemma sampleAngles_faint:
  "sampleAngles (faintPose d t) j =
     (if j = HipKneeAnkle then \<lparr>joint = j, degrees = d, confidence = 1 / 10\<rparr>
      else \<lparr>joint = j, degrees = 0, confidence = 0\<rparr>)"
  by (cases j) (simp_all add: sampleAngles_def faintPose_def)


lemma pose_time:
  "timestampMs (kneePose d t) = t" "timestampMs (elbowPose d t) = t"
  "timestampMs (faintPose d t) = t"
  by (simp_all add: kneePose_def elbowPose_def faintPose_def)

lemma instant_knee: "instantResult sampleConfig sampleParts s (kneePose d t) = Squat"
  by (simp add: instantResult_def sampleParts_def sampleAngles_knee sampleConfig_def
      defaultConfig_def)


lemma instant_faint: "instantResult sampleConfig sampleParts s (faintPose d t) = Unknown"
  by (simp add: instantResult_def sampleParts_def sampleAngles_faint sampleConfig_def
      defaultConfig_def)

text \<open>With a usable knee angle the squat machine of the sample session is driven.\<close>

lemma squatSession_knee:
  "counters (fst (processFrame sampleConfig sampleParts squatSession (kneePose 95 1000))) Squat
     = afterCrossing"
  by (simp add: processFrame_def sampleParts_def sampleAngles_knee smoothed_def squatSession_def
      freshSession_def freshCounter_def repStep_def sampleConfig_def defaultConfig_def
      squatThresholds_def tally_def Let_def pose_time afterCrossing_def)

lemma squatDown_count:
  "count (counters (fst (runSession sampleConfig sampleParts squatSession squatDown)) Squat) = 1"
  by (simp add: squatDown_def processFrame_def sampleParts_def sampleAngles_knee smoothed_def
      squatSession_def freshSession_def freshCounter_def repStep_def sampleConfig_def
      defaultConfig_def squatThresholds_def tally_def Let_def pose_time snapshotOf_def)

subsection \<open>Counts never go down\<close>

lemma processFrame_counters:
  "counters (fst (processFrame cfg parts s pose)) = counters s
   \<or> (\<exists>cur a. counters (fst (processFrame cfg parts s pose))
            = (counters s)(cur := repStep cfg (counters s cur) a (timestampMs pose)))"
  by (auto simp: processFrame_def Let_def split: prod.splits)

lemma processFrame_count_mono:
  "count (counters s e) \<le> count (counters (fst (processFrame cfg parts s pose)) e)"
  using processFrame_counters [of cfg parts s pose] repStep_count_le
  by (auto simp: fun_upd_def)

lemma runSession_count_mono:
  "count (counters s e) \<le> count (counters (fst (runSession cfg parts s poses)) e)"
proof (induction poses arbitrary: s)
  case Nil
  show ?case by simp
next
  case (Cons p ps)
  have "count (counters s e) \<le> count (counters (fst (processFrame cfg parts s p)) e)"
    by (rule processFrame_count_mono)
  also have "\<dots>
      \<le> count (counters (fst (runSession cfg parts (fst (processFrame cfg parts s p)) ps)) e)"
    by (rule Cons.IH)
  finally show ?case by (simp add: split_beta)
qed

lemma reset_count: "count (counters (reset s) e) = 0"
  by (simp add: reset_def freshCounter_def)

text \<open>
  C2. In every session state, for every exercise, and whatever the open parts compute:
  processing a frame, and hence any sequence of frames, never lowers the exercise's
  count. Only \<open>reset\<close> lowers it, to zero.
\<close>

theorem count_non_decreasing:
  "count (counters s e) \<le> count (counters (fst (processFrame cfg parts s pose)) e)
   \<and> count (counters s e) \<le> count (counters (fst (runSession cfg parts s poses)) e)
   \<and> count (counters (reset s) e) = 0"
  using processFrame_count_mono runSession_count_mono reset_count by blast

theorem count_non_decreasing_witness:
  "count (counters squatSession Squat) = 0
   \<and> count (counters (fst (runSession sampleConfig sampleParts squatSession squatDown)) Squat) = 1
   \<and> count (counters
        (reset (fst (runSession sampleConfig sampleParts squatSession squatDown))) Squat) = 0"
proof -
  have "count (counters
      (reset (fst (runSession sampleConfig sampleParts squatSession squatDown))) Squat) = 0"
    using count_non_decreasing
      [of "fst (runSession sampleConfig sampleParts squatSession squatDown)" Squat]
    by blast
  moreover have "count (counters squatSession Squat) = 0"
    by (simp add: squatSession_def freshSession_def freshCounter_def)
  ultimately show ?thesis by (simp add: squatDown_count)
qed

subsection \<open>The vote over the window\<close>






lemma processFrame_current:
  "currentExercise (fst (processFrame cfg parts s pose))
     = snd (smoothed cfg s (instantResult cfg parts s pose))"
  by (auto simp: processFrame_def instantResult_def Let_def split: prod.splits)

lemma processFrame_history:
  "classifierHistory (fst (processFrame cfg parts s pose))
     = fst (smoothed cfg s (instantResult cfg parts s pose))"
  by (auto simp: processFrame_def instantResult_def Let_def split: prod.splits)

text \<open>The history never outgrows the window.\<close>

lemma history_bounded:
  "length (classifierHistory (fst (processFrame cfg parts s pose))) \<le> windowSize cfg"
  by (simp add: processFrame_history smoothed_def Let_def)






subsection \<open>Unknown\<close>

lemma processFrame_unknown:
  assumes "instantResult cfg parts s pose = Unknown"
  shows "counters (fst (processFrame cfg parts s pose)) = counters s
    \<and> feedbackLog (fst (processFrame cfg parts s pose)) = feedbackLog s
    \<and> newFeedback (snd (processFrame cfg parts s pose)) = []
    \<and> counts (snd (processFrame cfg parts s pose)) = (\<lambda>e. count (counters s e))"
  using assms
  by (auto simp: processFrame_def instantResult_def Let_def snapshotOf_def split: prod.splits)

text \<open>
  C6. Processing a frame is a total function: there is no error result. When no
  candidate exceeds the threshold, so that the instantaneous result is \<open>Unknown\<close>, the
  counter state of every exercise (count, phase and time of the last phase change) is
  what it was, the snapshot reports the old counts, and no feedback is emitted or
  logged.
\<close>

theorem unknown_result_freezes:
  assumes "instantResult cfg parts s pose = Unknown"
  shows "counters (fst (processFrame cfg parts s pose)) = counters s
    \<and> feedbackLog (fst (processFrame cfg parts s pose)) = feedbackLog s
    \<and> newFeedback (snd (processFrame cfg parts s pose)) = []
    \<and> counts (snd (processFrame cfg parts s pose)) = (\<lambda>e. count (counters s e))"
  using assms by (rule processFrame_unknown)

theorem unknown_result_freezes_witness:
  "instantResult sampleConfig sampleParts squatSession (faintPose 95 1000) = Unknown
   \<and> counters (fst (processFrame sampleConfig sampleParts squatSession (faintPose 95 1000)))
       = counters squatSession
   \<and> newFeedback (snd (processFrame sampleConfig sampleParts squatSession (faintPose 95 1000))) = []"
  using unknown_result_freezes [OF instant_faint, of squatSession 95 1000] instant_faint
  by blast

text \<open>The same holds while the current exercise is \<open>Unknown\<close>.\<close>

lemma unknown_exercise_freezes:
  assumes "currentExercise (fst (processFrame cfg parts s pose)) = Unknown"
  shows "counters (fst (processFrame cfg parts s pose)) = counters s
    \<and> newFeedback (snd (processFrame cfg parts s pose)) = []"
  using assms
  by (auto simp: processFrame_def Let_def snapshotOf_def split: prod.splits if_splits)

text \<open>
  The scenario of section 8: a fresh session fed any number of frames in which nothing
  exceeds the threshold stays at \<open>Unknown\<close>, counts nothing and says nothing.
\<close>

lemma unknown_stays:
  assumes "instantResult cfg parts s pose = Unknown" and "currentExercise s = Unknown"
  shows "currentExercise (fst (processFrame cfg parts s pose)) = Unknown"
  using assms by (simp add: processFrame_current smoothed_def Let_def)

lemma unknown_run:
  assumes "\<forall>s'. \<forall>p \<in> set ps. instantResult cfg parts s' p = Unknown"
    and "currentExercise s = Unknown"
  shows "currentExercise (fst (runSession cfg parts s ps)) = Unknown
     \<and> counters (fst (runSession cfg parts s ps)) = counters s
     \<and> concat (map newFeedback (snd (runSession cfg parts s ps))) = []"
  using assms
proof (induction ps arbitrary: s)
  case Nil
  then show ?case by simp
next
  case (Cons p ps)
  let ?s = "fst (processFrame cfg parts s p)"
  have u: "instantResult cfg parts s p = Unknown" using Cons.prems(1) by simp
  have c: "currentExercise ?s = Unknown" using unknown_stays [OF u Cons.prems(2)] .
  have f: "counters ?s = counters s" "newFeedback (snd (processFrame cfg parts s p)) = []"
    using processFrame_unknown [OF u] by simp_all
  have "\<forall>s'. \<forall>p \<in> set ps. instantResult cfg parts s' p = Unknown"
    using Cons.prems(1) by simp
  then show ?case using Cons.IH [OF _ c] f by (simp add: split_beta)
qed

lemma faint_frames:
  "currentExercise (fst (runSession sampleConfig sampleParts freshSession
       (map (faintPose 95) ts))) = Unknown
   \<and> counters (fst (runSession sampleConfig sampleParts freshSession (map (faintPose 95) ts)))
       = counters freshSession
   \<and> concat (map newFeedback (snd (runSession sampleConfig sampleParts freshSession
       (map (faintPose 95) ts)))) = []"
proof -
  have "\<forall>s'. \<forall>p \<in> set (map (faintPose 95) ts).
      instantResult sampleConfig sampleParts s' p = Unknown"
    by (auto simp: instant_faint)
  moreover have "currentExercise freshSession = Unknown" by (simp add: freshSession_def)
  ultimately show ?thesis by (rule unknown_run)
qed

subsection \<open>The cooldown at work\<close>

lemma cooldown_sample:
  "emitFeedback sampleConfig [] 1000 [(''LEAN_FORWARD'', ''leaning too far forward'')]
      = [leanEvent 1000]
   \<and> emitFeedback sampleConfig [leanEvent 1000] 2500
        [(''LEAN_FORWARD'', ''leaning too far forward'')] = []
   \<and> emitFeedback sampleConfig [leanEvent 1000] 3000
        [(''LEAN_FORWARD'', ''leaning too far forward'')] = [leanEvent 3000]"
  by (simp add: recentlyEmitted_def sampleConfig_def defaultConfig_def leanEvent_def)

end
